theory Spec2Isabelle
  imports
    Complex_Main
    "HOL-Library.Char_ord"
    "HOL-Library.List_Lexorder"
    "HOL-Library.Option_ord"
    "HOL-Library.Sublist"
    "HOL-Library.Multiset"
begin

section \<open>The tasks table\<close>

text \<open>
  \<^verbatim>\<open>todo_app.py\<close> keeps its tasks in one SQLite table, created by \<^verbatim>\<open>create_table\<close>:
  \<^verbatim>\<open>
  CREATE TABLE IF NOT EXISTS tasks (
      id INTEGER PRIMARY KEY AUTOINCREMENT,
      title TEXT NOT NULL,
      description TEXT,
      priority TEXT,
      due_date DATE,
      status TEXT NOT NULL,
      created_at TIMESTAMP DEFAULT CURRENT_TIMESTAMP)
  \<close>
  A row is the tuple \<^verbatim>\<open>t\<close> that \<^verbatim>\<open>fetchall\<close> returns; the fields below are
  \<^verbatim>\<open>t[0]\<close> to \<^verbatim>\<open>t[6]\<close> in this order. A column declared \<^verbatim>\<open>NOT NULL\<close> holds a
  text, every other column holds a text or \<^verbatim>\<open>NULL\<close> (Python's \<^verbatim>\<open>None\<close>, here
  \<open>None\<close>). Texts are byte strings; the model covers ASCII text, on which Python's
  characters and bytes agree.

  The \<^verbatim>\<open>due_date\<close> column holds the text that SQLite stores: \<^verbatim>\<open>main\<close> always binds
  a \<^verbatim>\<open>datetime.date\<close>, which the \<^verbatim>\<open>sqlite3\<close> module writes as its ISO text
  \<^verbatim>\<open>YYYY-MM-DD\<close> (\<open>isoformat\<close> below), and reads the column back with
  \<^verbatim>\<open>strptime(due_date_str, '%Y-%m-%d')\<close>.
\<close>

record task =
  t_id :: int
  t_title :: string
  t_description :: "string option"
  t_priority :: "string option"
  t_due_date :: "string option"
  t_status :: string
  t_created_at :: "string option"

text \<open>
  The connection \<^verbatim>\<open>conn\<close> stands for the database file: the rows of \<^verbatim>\<open>tasks\<close> and
  the counter that \<^verbatim>\<open>AUTOINCREMENT\<close> keeps in \<^verbatim>\<open>sqlite_sequence\<close> (the largest
  rowid the table ever held, 0 for a fresh table). Row ids are unbounded integers in the
  model; SQLite's are 64-bit, a bound that one insertion at a time does not reach.
\<close>

record store =
  tasks :: "task list"
  seq :: int

datatype error = IntegrityError | AttributeError

subsection \<open>Dates as SQLite stores them\<close>

record date =
  year :: nat
  month :: nat
  day :: nat

definition digit :: "nat \<Rightarrow> char" where
  "digit n = ''0123456789'' ! (n mod 10)"

text \<open>\<open>zero_padded w n\<close> is Python's \<^verbatim>\<open>'%0wd' % n\<close> for \<open>n < 10 ^ w\<close>.\<close>

fun zero_padded :: "nat \<Rightarrow> nat \<Rightarrow> string" where
  "zero_padded 0 n = []"
| "zero_padded (Suc w) n = zero_padded w (n div 10) @ [digit n]"

definition isoformat :: "date \<Rightarrow> string" where
  "isoformat d =
     zero_padded 4 (year d) @ ''-'' @ zero_padded 2 (month d) @ ''-'' @ zero_padded 2 (day d)"

text \<open>
  A \<^verbatim>\<open>datetime.date\<close> has a year from 1 to 9999, a month from 1 to 12 and a day from 1
  to the length of the month (at most 31).
\<close>

definition date_in_range :: "date \<Rightarrow> bool" where
  "date_in_range d \<longleftrightarrow>
     1 \<le> year d \<and> year d \<le> 9999 \<and> 1 \<le> month d \<and> month d \<le> 12 \<and> 1 \<le> day d \<and> day d \<le> 31"

definition date_le :: "date \<Rightarrow> date \<Rightarrow> bool" where
  "date_le d e \<longleftrightarrow>
     year d < year e \<or>
     year d = year e \<and> (month d < month e \<or> month d = month e \<and> day d \<le> day e)"

section \<open>Task management functions\<close>

text \<open>
  \<^verbatim>\<open>AUTOINCREMENT\<close>: the new rowid is one more than the largest rowid that has ever
  been in the table.
\<close>

fun max_rowid :: "task list \<Rightarrow> int" where
  "max_rowid [] = 0"
| "max_rowid (t # ts) = max (t_id t) (max_rowid ts)"

definition next_rowid :: "store \<Rightarrow> int" where
  "next_rowid conn = max (seq conn) (max_rowid (tasks conn)) + 1"

text \<open>
  \<^verbatim>\<open>add_task\<close>: \<^verbatim>\<open>INSERT INTO tasks(title, description, priority, due_date, status)
  VALUES(?,?,?,?,?)\<close> with the status \<^verbatim>\<open>"Pending"\<close>, then \<^verbatim>\<open>return cur.lastrowid\<close>.
  A \<^verbatim>\<open>None\<close> title violates \<^verbatim>\<open>NOT NULL\<close>: \<^verbatim>\<open>execute\<close> raises
  \<^verbatim>\<open>sqlite3.IntegrityError\<close> and nothing is written. \<open>now\<close> is the reading of
  \<^verbatim>\<open>CURRENT_TIMESTAMP\<close> at the insertion.
\<close>

definition add_task ::
  "store \<Rightarrow> string option \<Rightarrow> string option \<Rightarrow> string option \<Rightarrow> string option \<Rightarrow> string
     \<Rightarrow> error + (int \<times> store)" where
  "add_task conn title description priority due_date now =
     (case title of
        None \<Rightarrow> Inl IntegrityError
      | Some ttl \<Rightarrow>
          let lastrowid = next_rowid conn in
          Inr (lastrowid,
               conn\<lparr>tasks := tasks conn @
                       [\<lparr>t_id = lastrowid, t_title = ttl, t_description = description,
                         t_priority = priority, t_due_date = due_date,
                         t_status = ''Pending'', t_created_at = Some now\<rparr>],
                     seq := lastrowid\<rparr>))"

text \<open>
  \<^verbatim>\<open>view_all_tasks\<close>: \<^verbatim>\<open>SELECT * FROM tasks ORDER BY due_date ASC\<close>. SQLite puts
  \<^verbatim>\<open>NULL\<close> first and compares texts byte by byte, which is the order of
  \<open>string option\<close>. Rows with equal keys come in the order of the table here; SQL
  leaves their order open.
\<close>

definition view_all_tasks :: "store \<Rightarrow> task list" where
  "view_all_tasks conn = sort_key t_due_date (tasks conn)"

text \<open>
  \<^verbatim>\<open>update_task_status\<close>: \<^verbatim>\<open>UPDATE tasks SET status = ? WHERE id = ?\<close>. The
  \<^verbatim>\<open>NOT NULL\<close> constraint is checked on the rows that are updated.
\<close>

definition update_task_status :: "store \<Rightarrow> int \<Rightarrow> string option \<Rightarrow> error + store" where
  "update_task_status conn task_id status =
     (case status of
        None \<Rightarrow> if list_ex (\<lambda>t. t_id t = task_id) (tasks conn) then Inl IntegrityError
                else Inr conn
      | Some st \<Rightarrow>
          Inr (conn\<lparr>tasks := map (\<lambda>t. if t_id t = task_id then t\<lparr>t_status := st\<rparr> else t)
                                  (tasks conn)\<rparr>))"


text \<open>\<^verbatim>\<open>delete_task\<close>: \<^verbatim>\<open>DELETE FROM tasks WHERE id=?\<close>.\<close>

definition delete_task :: "store \<Rightarrow> int \<Rightarrow> store" where
  "delete_task conn task_id = conn\<lparr>tasks := filter (\<lambda>t. t_id t \<noteq> task_id) (tasks conn)\<rparr>"

section \<open>The page: \<^verbatim>\<open>main\<close>\<close>

subsection \<open>The new task form\<close>

text \<open>
  \<^verbatim>\<open>
  submitted = st.form_submit_button("Add Task")
  if submitted and new_title:
      add_task(conn, new_title, new_desc, new_priority, new_due_date)
  \<close>
  The form's widgets give texts and a \<^verbatim>\<open>datetime.date\<close>; the id that
  \<^verbatim>\<open>add_task\<close> returns is dropped.
\<close>

definition new_task_form ::
  "store \<Rightarrow> bool \<Rightarrow> string \<Rightarrow> string \<Rightarrow> string \<Rightarrow> date \<Rightarrow> string \<Rightarrow> error + store" where
  "new_task_form conn submitted new_title new_desc new_priority new_due_date now =
     (if submitted \<and> new_title \<noteq> [] then
        (case add_task conn (Some new_title) (Some new_desc) (Some new_priority)
                (Some (isoformat new_due_date)) now of
           Inl e \<Rightarrow> Inl e
         | Inr r \<Rightarrow> Inr (snd r))
      else Inr conn)"

subsection \<open>The dashboard\<close>





subsection \<open>The filters\<close>

text \<open>\<^verbatim>\<open>str.lower()\<close> on ASCII text.\<close>

definition lower_char :: "char \<Rightarrow> char" where
  "lower_char c =
     (case map_of (zip ''ABCDEFGHIJKLMNOPQRSTUVWXYZ'' ''abcdefghijklmnopqrstuvwxyz'') c of
        Some l \<Rightarrow> l
      | None \<Rightarrow> c)"

definition lower :: "string \<Rightarrow> string" where
  "lower s = map lower_char s"

text \<open>\<open>str_in a b\<close> is Python's \<^verbatim>\<open>a in b\<close> on strings.\<close>

fun str_in :: "string \<Rightarrow> string \<Rightarrow> bool" where
  "str_in a [] = (a = [])"
| "str_in a (c # cs) = (prefix a (c # cs) \<or> str_in a cs)"

text \<open>
  The condition of the search filter on one row,
  \<^verbatim>\<open>search_query.lower() in t[1].lower() or search_query.lower() in t[2].lower()\<close>:
  \<^verbatim>\<open>or\<close> evaluates its second operand only when the first is false, and
  \<^verbatim>\<open>None.lower()\<close> raises \<^verbatim>\<open>AttributeError\<close>.
\<close>

definition search_matches :: "string \<Rightarrow> task \<Rightarrow> error + bool" where
  "search_matches search_query t =
     (if str_in (lower search_query) (lower (t_title t)) then Inr True
      else (case t_description t of
              None \<Rightarrow> Inl AttributeError
            | Some d \<Rightarrow> Inr (str_in (lower search_query) (lower d))))"

text \<open>The list comprehension \<^verbatim>\<open>[t for t in tasks_to_display if ...]\<close> of the search.\<close>

fun search_filter :: "string \<Rightarrow> task list \<Rightarrow> error + task list" where
  "search_filter search_query [] = Inr []"
| "search_filter search_query (t # ts) =
     (case search_matches search_query t of
        Inl e \<Rightarrow> Inl e
      | Inr b \<Rightarrow>
          (case search_filter search_query ts of
             Inl e \<Rightarrow> Inl e
           | Inr r \<Rightarrow> Inr (if b then t # r else r)))"

text \<open>
  \<^verbatim>\<open>
  tasks_to_display = all_tasks
  if search_query:
      tasks_to_display = [t for t in tasks_to_display if ...]
  if filter_priority != "All":
      tasks_to_display = [t for t in tasks_to_display if t[3] == filter_priority]
  if filter_status != "All":
      tasks_to_display = [t for t in tasks_to_display if t[5] == filter_status]
  \<close>
\<close>

definition tasks_to_display :: "string \<Rightarrow> string \<Rightarrow> string \<Rightarrow> task list \<Rightarrow> error + task list" where
  "tasks_to_display search_query filter_priority filter_status all_tasks =
     (case (if search_query \<noteq> [] then search_filter search_query all_tasks else Inr all_tasks) of
        Inl e \<Rightarrow> Inl e
      | Inr found \<Rightarrow>
          let by_priority =
                (if filter_priority \<noteq> ''All''
                 then filter (\<lambda>t. t_priority t = Some filter_priority) found else found);
              by_status =
                (if filter_status \<noteq> ''All''
                 then filter (\<lambda>t. t_status t = filter_status) by_priority else by_priority)
          in Inr by_status)"

section \<open>The search, in the words of the specification\<close>

text \<open>
  "Case-insensitive substring match against title OR description": the query occurs in a
  text when some substring of the text equals the query up to the case of its letters.
  These two definitions follow the specification; the filters above follow the code.
\<close>

definition occurs_ignoring_case :: "string \<Rightarrow> string \<Rightarrow> bool" where
  "occurs_ignoring_case search_query s \<longleftrightarrow> (\<exists>w. sublist w s \<and> lower w = lower search_query)"

definition matches_search :: "string \<Rightarrow> task \<Rightarrow> bool" where
  "matches_search search_query t \<longleftrightarrow>
     occurs_ignoring_case search_query (t_title t) \<or>
     (\<exists>d. t_description t = Some d \<and> occurs_ignoring_case search_query d)"

section \<open>Example rows\<close>

definition milk :: task where
  "milk = \<lparr>t_id = 1, t_title = ''Buy milk'', t_description = Some '''',
           t_priority = Some ''Low'', t_due_date = Some ''2099-01-01'',
           t_status = ''Pending'', t_created_at = Some ''2024-05-01 10:00:00''\<rparr>"

definition rent :: task where
  "rent = \<lparr>t_id = 2, t_title = ''Pay rent'', t_description = None,
           t_priority = Some ''High'', t_due_date = Some ''2098-12-31'',
           t_status = ''Completed'', t_created_at = Some ''2024-05-02 09:30:00''\<rparr>"

definition report :: task where
  "report = \<lparr>t_id = 3, t_title = ''Write report'', t_description = Some ''for the board'',
             t_priority = Some ''High'', t_due_date = None,
             t_status = ''Pending'', t_created_at = Some ''2024-05-03 08:00:00''\<rparr>"

definition summary :: task where
  "summary = \<lparr>t_id = 4, t_title = ''Write summary'', t_description = Some ''Quarterly MILK sales'',
            t_priority = Some ''High'', t_due_date = Some ''2099-03-15'',
            t_status = ''Pending'', t_created_at = Some ''2024-05-04 08:00:00''\<rparr>"

section \<open>Adding a task\<close>



lemma mem_view_all_tasks: "t \<in> set (view_all_tasks conn) \<longleftrightarrow> t \<in> set (tasks conn)"
  by (simp add: view_all_tasks_def)


text \<open>
  C1, as stated, fails on \<^verbatim>\<open>add_task\<close>: called with the empty title on the empty
  table it inserts the row and returns the id 1. \<^verbatim>\<open>NOT NULL\<close> refuses \<^verbatim>\<open>NULL\<close>,
  not the empty text.
\<close>

theorem add_task_empty_title_inserts:
  "add_task \<lparr>tasks = [], seq = 0\<rparr> (Some '''') (Some '''') (Some ''Low'') (Some ''2099-01-01'')
       ''2024-05-01 10:00:00''
   = Inr (1, \<lparr>tasks = [\<lparr>t_id = 1, t_title = '''', t_description = Some '''',
                           t_priority = Some ''Low'', t_due_date = Some ''2099-01-01'',
                           t_status = ''Pending'', t_created_at = Some ''2024-05-01 10:00:00''\<rparr>],
              seq = 1\<rparr>)"
  by (simp add: add_task_def next_rowid_def)

text \<open>
  C1, amended: the empty title is stopped by the form, not by \<^verbatim>\<open>add_task\<close>. For every
  description, priority and due date, submitting the new task form with an empty title
  does not call \<^verbatim>\<open>add_task\<close>: the table is unchanged and no id is produced.
  \<^verbatim>\<open>add_task\<close> itself fails exactly when the title is \<^verbatim>\<open>None\<close>.
\<close>

theorem empty_title_adds_nothing:
  "new_task_form conn submitted '''' new_desc new_priority new_due_date now = Inr conn \<and>
   ((\<exists>e. add_task conn title description priority due_date now = Inl e) \<longleftrightarrow> title = None)"
  by (simp add: new_task_form_def add_task_def Let_def split: option.split)



section \<open>The order of ISO dates\<close>

lemma length_zero_padded [simp]: "length (zero_padded w n) = w"
  by (induction w arbitrary: n) simp_all

lemma of_char_digit: "of_char (digit n) = (48 + n mod 10 :: nat)"
proof -
  have "n mod 10 < 10" by simp
  then consider "n mod 10 = 0" | "n mod 10 = 1" | "n mod 10 = 2" | "n mod 10 = 3"
    | "n mod 10 = 4" | "n mod 10 = 5" | "n mod 10 = 6" | "n mod 10 = 7"
    | "n mod 10 = 8" | "n mod 10 = 9"
    by atomize_elim arith
  then show ?thesis by cases (simp_all add: digit_def)
qed

lemma digit_less_iff: "digit a < digit b \<longleftrightarrow> a mod 10 < b mod 10"
  by (simp add: less_char_def of_char_digit)

lemma digit_eq_iff: "digit a = digit b \<longleftrightarrow> a mod 10 = b mod 10"
proof
  assume "digit a = digit b"
  then have "of_char (digit a) = (of_char (digit b) :: nat)" by simp
  then show "a mod 10 = b mod 10" by (simp add: of_char_digit)
next
  assume "a mod 10 = b mod 10"
  then show "digit a = digit b" by (simp add: digit_def)
qed

lemma append_less_append:
  "length xs = length ys \<Longrightarrow> xs @ us < ys @ vs \<longleftrightarrow> xs < ys \<or> xs = ys \<and> us < (vs :: 'a :: linorder list)"
  by (induction xs ys rule: list_induct2) auto

lemma append_le_append:
  "length xs = length ys \<Longrightarrow> xs @ us \<le> ys @ vs \<longleftrightarrow> xs < ys \<or> xs = ys \<and> us \<le> (vs :: 'a :: linorder list)"
  by (induction xs ys rule: list_induct2) auto

lemma div_mod_less_iff:
  "(a::nat) < b \<longleftrightarrow> a div 10 < b div 10 \<or> a div 10 = b div 10 \<and> a mod 10 < b mod 10"
proof -
  have a: "a = 10 * (a div 10) + a mod 10" and b: "b = 10 * (b div 10) + b mod 10"
    by simp_all
  have "a mod 10 < 10" "b mod 10 < 10" by simp_all
  then show ?thesis using a b by linarith
qed

lemma div_mod_eq_iff:
  "(a::nat) = b \<longleftrightarrow> a div 10 = b div 10 \<and> a mod 10 = b mod 10"
  by (metis div_mult_mod_eq)

lemma div_10_less: "(a::nat) < 10 ^ Suc w \<Longrightarrow> a div 10 < 10 ^ w"
  by (simp add: less_mult_imp_div_less mult.commute)

lemma zero_padded_eq_iff:
  "a < 10 ^ w \<Longrightarrow> b < 10 ^ w \<Longrightarrow> zero_padded w a = zero_padded w b \<longleftrightarrow> a = b"
proof (induction w arbitrary: a b)
  case 0
  then show ?case by simp
next
  case (Suc w)
  have "zero_padded w (a div 10) = zero_padded w (b div 10) \<longleftrightarrow> a div 10 = b div 10"
    using Suc.prems by (intro Suc.IH div_10_less)
  then show ?case
    using div_mod_eq_iff [of a b] by (simp add: digit_eq_iff)
qed

lemma zero_padded_less_iff:
  "a < 10 ^ w \<Longrightarrow> b < 10 ^ w \<Longrightarrow> zero_padded w a < zero_padded w b \<longleftrightarrow> a < b"
proof (induction w arbitrary: a b)
  case 0
  then show ?case by simp
next
  case (Suc w)
  have small: "a div 10 < 10 ^ w" "b div 10 < 10 ^ w"
    using Suc.prems by (simp_all add: div_10_less)
  have "zero_padded (Suc w) a < zero_padded (Suc w) b \<longleftrightarrow>
          zero_padded w (a div 10) < zero_padded w (b div 10) \<or>
          zero_padded w (a div 10) = zero_padded w (b div 10) \<and> digit a < digit b"
    by (simp add: append_less_append)
  also have "\<dots> \<longleftrightarrow> a div 10 < b div 10 \<or> a div 10 = b div 10 \<and> a mod 10 < b mod 10"
    by (simp only: Suc.IH [OF small] zero_padded_eq_iff [OF small] digit_less_iff)
  also have "\<dots> \<longleftrightarrow> a < b"
    by (rule div_mod_less_iff [symmetric])
  finally show ?case .
qed

lemma isoformat_le_iff:
  assumes "year d < 10000" "month d < 100" "day d < 100"
      and "year e < 10000" "month e < 100" "day e < 100"
  shows "isoformat d \<le> isoformat e \<longleftrightarrow> date_le d e"
proof -
  have y: "zero_padded 4 (year d) < zero_padded 4 (year e) \<longleftrightarrow> year d < year e"
          "zero_padded 4 (year d) = zero_padded 4 (year e) \<longleftrightarrow> year d = year e"
    using assms by (simp_all add: zero_padded_less_iff zero_padded_eq_iff del: zero_padded.simps)
  have m: "zero_padded 2 (month d) < zero_padded 2 (month e) \<longleftrightarrow> month d < month e"
          "zero_padded 2 (month d) = zero_padded 2 (month e) \<longleftrightarrow> month d = month e"
    using assms by (simp_all add: zero_padded_less_iff zero_padded_eq_iff del: zero_padded.simps)
  have dd: "zero_padded 2 (day d) < zero_padded 2 (day e) \<longleftrightarrow> day d < day e"
          "zero_padded 2 (day d) = zero_padded 2 (day e) \<longleftrightarrow> day d = day e"
    using assms by (simp_all add: zero_padded_less_iff zero_padded_eq_iff del: zero_padded.simps)
  have tail: "zero_padded 2 (day d) \<le> zero_padded 2 (day e) \<longleftrightarrow> day d \<le> day e"
    using dd by (auto simp add: le_less simp del: zero_padded.simps)
  have "isoformat d \<le> isoformat e \<longleftrightarrow>
     zero_padded 4 (year d) < zero_padded 4 (year e) \<or>
     zero_padded 4 (year d) = zero_padded 4 (year e) \<and>
       (zero_padded 2 (month d) < zero_padded 2 (month e) \<or>
        zero_padded 2 (month d) = zero_padded 2 (month e) \<and>
          zero_padded 2 (day d) \<le> zero_padded 2 (day e))"
    unfolding isoformat_def
    by (simp add: append_le_append del: zero_padded.simps)
  also have "\<dots> \<longleftrightarrow> date_le d e"
    unfolding y m tail date_le_def ..
  finally show ?thesis .
qed

lemma isoformat_examples:
  "isoformat \<lparr>year = 2098, month = 12, day = 31\<rparr> = ''2098-12-31''"
  "isoformat \<lparr>year = 2099, month = 1, day = 1\<rparr> = ''2099-01-01''"
  by code_simp+

subsection \<open>ISO dates and the calendar\<close>

text \<open>
  The texts under which dates are stored are ordered as the dates are: for dates in the
  range of \<^verbatim>\<open>datetime.date\<close>, one ISO text is at most another exactly when its date is
  not later, and two dates with the same text are the same date. So
  \<^verbatim>\<open>ORDER BY due_date ASC\<close> on the texts is the order of the calendar.
\<close>

theorem isoformat_order:
  assumes "date_in_range d" and "date_in_range e"
  shows "(isoformat d \<le> isoformat e \<longleftrightarrow> date_le d e) \<and> (isoformat d = isoformat e \<longleftrightarrow> d = e)"
proof -
  have b: "year d < 10000" "month d < 100" "day d < 100"
    "year e < 10000" "month e < 100" "day e < 100"
    using assms by (simp_all add: date_in_range_def)
  then have le: "isoformat d \<le> isoformat e \<longleftrightarrow> date_le d e"
    and ge: "isoformat e \<le> isoformat d \<longleftrightarrow> date_le e d"
    by (simp_all add: isoformat_le_iff)
  have "isoformat d = isoformat e \<longleftrightarrow> date_le d e \<and> date_le e d"
    using le ge by auto
  also have "\<dots> \<longleftrightarrow> year d = year e \<and> month d = month e \<and> day d = day e"
    by (auto simp add: date_le_def)
  also have "\<dots> \<longleftrightarrow> d = e"
    by auto
  finally show ?thesis using le by simp
qed

theorem isoformat_order_witness:
  "date_in_range \<lparr>year = 2098, month = 12, day = 31\<rparr> \<and>
   date_in_range \<lparr>year = 2099, month = 1, day = 1\<rparr> \<and>
   ''2098-12-31'' \<le> ''2099-01-01'' \<and>
   date_le \<lparr>year = 2098, month = 12, day = 31\<rparr> \<lparr>year = 2099, month = 1, day = 1\<rparr> \<and>
   \<not> date_le \<lparr>year = 2099, month = 1, day = 1\<rparr> \<lparr>year = 2098, month = 12, day = 31\<rparr>"
proof -
  let ?d = "\<lparr>year = 2098, month = 12, day = 31\<rparr>"
  let ?e = "\<lparr>year = 2099, month = 1, day = 1\<rparr>"
  have range: "date_in_range ?d" "date_in_range ?e"
    by (simp_all add: date_in_range_def)
  have texts: "''2098-12-31'' \<le> ''2099-01-01''" "\<not> ''2099-01-01'' \<le> ''2098-12-31''"
    by simp_all
  have "date_le ?d ?e"
    using isoformat_order [OF range] texts(1) unfolding isoformat_examples by simp
  moreover have "\<not> date_le ?e ?d"
    using isoformat_order [OF range(2) range(1)] texts(2) unfolding isoformat_examples by simp
  ultimately show ?thesis using range texts by simp
qed

section \<open>Listing the tasks\<close>

text \<open>
  C4: whatever the order of the rows in the table, \<^verbatim>\<open>view_all_tasks\<close> returns exactly
  the rows of the table (each as often as the table holds it), sorted by
  \<^verbatim>\<open>due_date\<close> ascending in SQLite's order (\<^verbatim>\<open>NULL\<close> first, then the texts). On
  the ISO texts of dates this is the order of the calendar: an earlier row never has a
  later date.
\<close>

theorem view_all_tasks_sorted:
  "mset (view_all_tasks conn) = mset (tasks conn) \<and>
   sorted (map t_due_date (view_all_tasks conn)) \<and>
   (\<forall>i j d e.
      i < j \<and> j < length (view_all_tasks conn) \<and>
      t_due_date (view_all_tasks conn ! i) = Some (isoformat d) \<and>
      t_due_date (view_all_tasks conn ! j) = Some (isoformat e) \<and>
      date_in_range d \<and> date_in_range e \<longrightarrow> date_le d e)"
proof (intro conjI allI impI)
  show "mset (view_all_tasks conn) = mset (tasks conn)"
    by (simp add: view_all_tasks_def)
  show sorted: "sorted (map t_due_date (view_all_tasks conn))"
    by (simp add: view_all_tasks_def)
  fix i j d e
  assume a: "i < j \<and> j < length (view_all_tasks conn) \<and>
      t_due_date (view_all_tasks conn ! i) = Some (isoformat d) \<and>
      t_due_date (view_all_tasks conn ! j) = Some (isoformat e) \<and>
      date_in_range d \<and> date_in_range e"
  then have "map t_due_date (view_all_tasks conn) ! i \<le> map t_due_date (view_all_tasks conn) ! j"
    using sorted by (intro sorted_nth_mono) simp_all
  with a have "isoformat d \<le> isoformat e" by simp
  moreover have "year d < 10000" "month d < 100" "day d < 100"
    "year e < 10000" "month e < 100" "day e < 100"
    using a by (simp_all add: date_in_range_def)
  ultimately show "date_le d e" by (simp add: isoformat_le_iff)
qed

theorem view_all_tasks_sorted_witness:
  "view_all_tasks \<lparr>tasks = [milk, rent, report], seq = 3\<rparr> = [report, rent, milk] \<and>
   date_in_range \<lparr>year = 2098, month = 12, day = 31\<rparr> \<and>
   date_in_range \<lparr>year = 2099, month = 1, day = 1\<rparr> \<and>
   date_le \<lparr>year = 2098, month = 12, day = 31\<rparr> \<lparr>year = 2099, month = 1, day = 1\<rparr>"
proof -
  let ?conn = "\<lparr>tasks = [milk, rent, report], seq = 3\<rparr>"
  let ?d = "\<lparr>year = 2098, month = 12, day = 31\<rparr>"
  let ?e = "\<lparr>year = 2099, month = 1, day = 1\<rparr>"
  have view: "view_all_tasks ?conn = [report, rent, milk]"
    by (simp add: view_all_tasks_def milk_def rent_def report_def)
  have range: "date_in_range ?d" "date_in_range ?e"
    by (simp_all add: date_in_range_def)
  have rows: "2 < length (view_all_tasks ?conn)"
    "view_all_tasks ?conn ! 1 = rent" "view_all_tasks ?conn ! 2 = milk"
    unfolding view by simp_all
  have due: "t_due_date rent = Some (isoformat ?d)" "t_due_date milk = Some (isoformat ?e)"
    unfolding isoformat_examples by (simp_all add: milk_def rent_def)
  have "(1::nat) < 2 \<and> 2 < length (view_all_tasks ?conn) \<and>
      t_due_date (view_all_tasks ?conn ! 1) = Some (isoformat ?d) \<and>
      t_due_date (view_all_tasks ?conn ! 2) = Some (isoformat ?e) \<and>
      date_in_range ?d \<and> date_in_range ?e"
    using range rows(1) due unfolding rows(2,3) by simp
  then have "date_le ?d ?e"
    by (rule view_all_tasks_sorted [of ?conn, THEN conjunct2, THEN conjunct2, rule_format])
  with view range show ?thesis by simp
qed

section \<open>Updating a task\<close>

lemma update_task_status_Some:
  "update_task_status conn task_id (Some st) =
     Inr (conn\<lparr>tasks := map (\<lambda>t. if t_id t = task_id then t\<lparr>t_status := st\<rparr> else t)
                            (tasks conn)\<rparr>)"
  by (simp add: update_task_status_def)

text \<open>
  C5: when the table holds a task with the given id, \<^verbatim>\<open>update_task_status\<close> with
  \<^verbatim>\<open>"Completed"\<close> succeeds and keeps every row in its place; a row with that id gets
  the status Completed and keeps its id, title, description, priority, due date and
  creation time, every other row is unchanged, and \<^verbatim>\<open>view_all_tasks\<close> then shows the
  task as Completed.
\<close>

theorem update_task_status_completed:
  assumes "\<exists>t \<in> set (tasks conn). t_id t = task_id"
  shows "\<exists>conn'.
     update_task_status conn task_id (Some ''Completed'') = Inr conn' \<and>
     length (tasks conn') = length (tasks conn) \<and>
     (\<exists>t \<in> set (view_all_tasks conn'). t_id t = task_id) \<and>
     (\<forall>t \<in> set (view_all_tasks conn'). t_id t = task_id \<longrightarrow> t_status t = ''Completed'') \<and>
     (\<forall>i < length (tasks conn).
        (t_id (tasks conn ! i) = task_id \<longrightarrow>
           t_status (tasks conn' ! i) = ''Completed'' \<and>
           t_id (tasks conn' ! i) = t_id (tasks conn ! i) \<and>
           t_title (tasks conn' ! i) = t_title (tasks conn ! i) \<and>
           t_description (tasks conn' ! i) = t_description (tasks conn ! i) \<and>
           t_priority (tasks conn' ! i) = t_priority (tasks conn ! i) \<and>
           t_due_date (tasks conn' ! i) = t_due_date (tasks conn ! i) \<and>
           t_created_at (tasks conn' ! i) = t_created_at (tasks conn ! i)) \<and>
        (t_id (tasks conn ! i) \<noteq> task_id \<longrightarrow> tasks conn' ! i = tasks conn ! i))"
proof -
  define upd where "upd = (\<lambda>t::task. if t_id t = task_id then t\<lparr>t_status := ''Completed''\<rparr> else t)"
  define conn' where "conn' = conn\<lparr>tasks := map upd (tasks conn)\<rparr>"
  have res: "update_task_status conn task_id (Some ''Completed'') = Inr conn'"
    by (simp add: update_task_status_Some conn'_def upd_def)
  have rows: "tasks conn' = map upd (tasks conn)"
    by (simp add: conn'_def)
  have id_upd: "t_id (upd t) = t_id t" for t
    by (simp add: upd_def)
  obtain t where t: "t \<in> set (tasks conn)" "t_id t = task_id"
    using assms by blast
  then have "upd t \<in> set (view_all_tasks conn')" "t_id (upd t) = task_id"
    by (simp_all add: mem_view_all_tasks rows id_upd)
  then have ex: "\<exists>t \<in> set (view_all_tasks conn'). t_id t = task_id"
    by blast
  have all: "\<forall>t \<in> set (view_all_tasks conn'). t_id t = task_id \<longrightarrow> t_status t = ''Completed''"
  proof (intro ballI impI)
    fix t
    assume "t \<in> set (view_all_tasks conn')" and same: "t_id t = task_id"
    then obtain s where s: "t = upd s"
      by (auto simp add: mem_view_all_tasks rows)
    with same have "t_id s = task_id"
      by (simp add: id_upd)
    with s show "t_status t = ''Completed''"
      by (simp add: upd_def)
  qed
  have frame: "\<forall>i < length (tasks conn).
        (t_id (tasks conn ! i) = task_id \<longrightarrow>
           t_status (tasks conn' ! i) = ''Completed'' \<and>
           t_id (tasks conn' ! i) = t_id (tasks conn ! i) \<and>
           t_title (tasks conn' ! i) = t_title (tasks conn ! i) \<and>
           t_description (tasks conn' ! i) = t_description (tasks conn ! i) \<and>
           t_priority (tasks conn' ! i) = t_priority (tasks conn ! i) \<and>
           t_due_date (tasks conn' ! i) = t_due_date (tasks conn ! i) \<and>
           t_created_at (tasks conn' ! i) = t_created_at (tasks conn ! i)) \<and>
        (t_id (tasks conn ! i) \<noteq> task_id \<longrightarrow> tasks conn' ! i = tasks conn ! i)"
    by (simp add: rows upd_def)
  have "length (tasks conn') = length (tasks conn)"
    by (simp add: rows)
  with res ex all frame show ?thesis by blast
qed
theorem update_task_status_completed_witness:
  "\<exists>conn'.
     update_task_status \<lparr>tasks = [milk, rent, report], seq = 3\<rparr> 1 (Some ''Completed'') = Inr conn' \<and>
     t_status (tasks conn' ! 0) = ''Completed'' \<and> t_title (tasks conn' ! 0) = ''Buy milk'' \<and>
     t_due_date (tasks conn' ! 0) = Some ''2099-01-01'' \<and>
     tasks conn' ! 1 = rent \<and> tasks conn' ! 2 = report"
proof -
  let ?conn = "\<lparr>tasks = [milk, rent, report], seq = 3\<rparr>"
  have ids: "t_id milk = 1" "t_id rent = 2" "t_id report = 3"
    by (simp_all add: milk_def rent_def report_def)
  have "\<exists>t \<in> set (tasks ?conn). t_id t = 1"
    using ids by simp
  from update_task_status_completed [OF this]
  obtain conn' where
    res: "update_task_status ?conn 1 (Some ''Completed'') = Inr conn'"
    and frame: "\<forall>i < length (tasks ?conn).
        (t_id (tasks ?conn ! i) = 1 \<longrightarrow>
           t_status (tasks conn' ! i) = ''Completed'' \<and>
           t_id (tasks conn' ! i) = t_id (tasks ?conn ! i) \<and>
           t_title (tasks conn' ! i) = t_title (tasks ?conn ! i) \<and>
           t_description (tasks conn' ! i) = t_description (tasks ?conn ! i) \<and>
           t_priority (tasks conn' ! i) = t_priority (tasks ?conn ! i) \<and>
           t_due_date (tasks conn' ! i) = t_due_date (tasks ?conn ! i) \<and>
           t_created_at (tasks conn' ! i) = t_created_at (tasks ?conn ! i)) \<and>
        (t_id (tasks ?conn ! i) \<noteq> 1 \<longrightarrow> tasks conn' ! i = tasks ?conn ! i)"
    by (elim exE conjE)
  have "t_status (tasks conn' ! 0) = ''Completed'' \<and> t_title (tasks conn' ! 0) = t_title milk \<and>
     t_due_date (tasks conn' ! 0) = t_due_date milk"
    using frame [rule_format, of 0] ids by simp
  moreover have "tasks conn' ! 1 = rent"
    using frame [rule_format, of 1] ids by simp
  moreover have "tasks conn' ! 2 = report"
    using frame [rule_format, of 2] ids by simp
  moreover have "t_title milk = ''Buy milk''" "t_due_date milk = Some ''2099-01-01''"
    by (simp_all add: milk_def)
  ultimately show ?thesis using res by (intro exI [of _ conn']) simp
qed



section \<open>Deleting a task\<close>

text \<open>
  C7: after \<^verbatim>\<open>delete_task\<close>, \<^verbatim>\<open>view_all_tasks\<close> shows no row with the given id, and
  every other row it showed before is still shown, unchanged and in the same order: the
  new listing is the old one without the rows of that id. This holds for every table, so
  for every table that holds a task with the id.
\<close>

theorem delete_task_then_view:
  "(\<forall>t \<in> set (view_all_tasks (delete_task conn task_id)). t_id t \<noteq> task_id) \<and>
   (\<forall>t \<in> set (view_all_tasks conn).
      t_id t \<noteq> task_id \<longrightarrow> t \<in> set (view_all_tasks (delete_task conn task_id))) \<and>
   view_all_tasks (delete_task conn task_id) =
     filter (\<lambda>t. t_id t \<noteq> task_id) (view_all_tasks conn)"
proof -
  have "view_all_tasks (delete_task conn task_id) =
     filter (\<lambda>t. t_id t \<noteq> task_id) (view_all_tasks conn)"
    by (simp add: view_all_tasks_def delete_task_def filter_sort)
  then show ?thesis by simp
qed
theorem delete_task_then_view_witness:
  "view_all_tasks \<lparr>tasks = [milk, rent, report], seq = 3\<rparr> = [report, rent, milk] \<and>
   view_all_tasks (delete_task \<lparr>tasks = [milk, rent, report], seq = 3\<rparr> 2) = [report, milk] \<and>
   t_id rent = 2 \<and> t_id milk \<noteq> 2 \<and> t_id report \<noteq> 2 \<and>
   milk \<in> set (view_all_tasks (delete_task \<lparr>tasks = [milk, rent, report], seq = 3\<rparr> 2))"
proof -
  let ?conn = "\<lparr>tasks = [milk, rent, report], seq = 3\<rparr>"
  have ids: "t_id milk = 1" "t_id rent = 2" "t_id report = 3"
    by (simp_all add: milk_def rent_def report_def)
  have view: "view_all_tasks ?conn = [report, rent, milk]"
    by (simp add: view_all_tasks_def milk_def rent_def report_def)
  have "view_all_tasks (delete_task ?conn 2) = filter (\<lambda>t. t_id t \<noteq> 2) [report, rent, milk]"
    using delete_task_then_view [of ?conn 2] unfolding view by (elim conjE)
  then have after: "view_all_tasks (delete_task ?conn 2) = [report, milk]"
    using ids by simp
  have "\<forall>t \<in> set [report, rent, milk].
      t_id t \<noteq> 2 \<longrightarrow> t \<in> set (view_all_tasks (delete_task ?conn 2))"
    using delete_task_then_view [of ?conn 2] unfolding view by (elim conjE)
  then have "milk \<in> set (view_all_tasks (delete_task ?conn 2))"
    using ids by simp
  with view after ids show ?thesis by simp
qed

section \<open>The completion rate\<close>







section \<open>The filters\<close>

lemma str_in_iff_sublist: "str_in a b \<longleftrightarrow> sublist a b"
  by (induction b) (simp_all add: sublist_Cons_right)

lemma str_in_lower_iff:
  "str_in (lower search_query) (lower s) \<longleftrightarrow> occurs_ignoring_case search_query s"
proof
  assume "str_in (lower search_query) (lower s)"
  then have "sublist (map lower_char search_query) (map lower_char s)"
    by (simp add: str_in_iff_sublist lower_def)
  then obtain w where "sublist w s" "map lower_char search_query = map lower_char w"
    using sublist_map_rightE by blast
  then show "occurs_ignoring_case search_query s"
    by (auto simp add: occurs_ignoring_case_def lower_def)
next
  assume "occurs_ignoring_case search_query s"
  then obtain w where w: "sublist w s" "lower w = lower search_query"
    by (auto simp add: occurs_ignoring_case_def)
  from w(1) have "sublist (lower w) (lower s)"
    unfolding lower_def by (rule map_mono_sublist)
  with w(2) show "str_in (lower search_query) (lower s)"
    by (simp add: str_in_iff_sublist)
qed

lemma search_matches_cases:
  "search_matches search_query t =
     (if t_description t = None \<and> \<not> occurs_ignoring_case search_query (t_title t)
      then Inl AttributeError else Inr (matches_search search_query t))"
  by (auto simp add: search_matches_def matches_search_def str_in_lower_iff split: option.split)

lemma search_filter_cases:
  "search_filter search_query ts =
     (if \<exists>t \<in> set ts. t_description t = None \<and> \<not> occurs_ignoring_case search_query (t_title t)
      then Inl AttributeError
      else Inr (filter (matches_search search_query) ts))"
  by (induction ts) (simp_all add: search_matches_cases)

lemma matches_search_empty: "matches_search [] t"
  by (auto simp add: matches_search_def occurs_ignoring_case_def lower_def intro: exI [of _ "[]"])

lemma lower_examples:
  "lower ''milk'' = ''milk''"
  "lower ''Buy milk'' = ''buy milk''"
  "lower ''Pay rent'' = ''pay rent''"
  "lower ''Write summary'' = ''write summary''"
  "lower ''Quarterly MILK sales'' = ''quarterly milk sales''"
  "lower [] = []"
  by (simp_all add: lower_def lower_char_def)

lemma matches_search_examples:
  "matches_search ''milk'' milk" "\<not> matches_search ''milk'' rent"
  "matches_search ''milk'' summary"
  by (simp_all add: matches_search_def str_in_lower_iff [symmetric] lower_examples
        milk_def rent_def summary_def)




lemma search_filter_descriptions:
  "\<forall>t \<in> set ts. t_description t \<noteq> None \<Longrightarrow>
     search_filter search_query ts = Inr (filter (matches_search search_query) ts)"
  by (simp add: search_filter_cases)

text \<open>
  The search filter where it does not raise. It returns a list exactly when every task
  without description has the query in its title, and the list is then exactly the tasks
  in which the query occurs, ignoring case, in the title or in the description, in the
  order they had.
\<close>

theorem search_filter_exact:
  "search_filter search_query ts = Inr found \<longleftrightarrow>
     (\<forall>t \<in> set ts.
        t_description t = None \<longrightarrow> occurs_ignoring_case search_query (t_title t)) \<and>
     found = filter (matches_search search_query) ts"
  by (auto simp add: search_filter_cases)

theorem search_filter_exact_witness:
  "t_description milk \<noteq> None \<and> t_description rent = None \<and>
   occurs_ignoring_case ''RENT'' (t_title rent) \<and>
   search_filter ''RENT'' [milk, rent] = Inr [rent]"
proof -
  have d: "t_description milk \<noteq> None" "t_description rent = None"
    by (simp_all add: milk_def rent_def)
  have low: "lower ''RENT'' = ''rent''"
    by (simp add: lower_def lower_char_def)
  have occ: "occurs_ignoring_case ''RENT'' (t_title rent)"
    "\<not> occurs_ignoring_case ''RENT'' (t_title milk)"
    "\<not> occurs_ignoring_case ''RENT'' []"
    by (simp_all add: str_in_lower_iff [symmetric] low lower_examples milk_def rent_def)
  have m: "matches_search ''RENT'' rent" "\<not> matches_search ''RENT'' milk"
    using occ by (simp_all add: matches_search_def milk_def)
  have "\<forall>t \<in> set [milk, rent].
        t_description t = None \<longrightarrow> occurs_ignoring_case ''RENT'' (t_title t)"
    using d occ by simp
  moreover have "[rent] = filter (matches_search ''RENT'') [milk, rent]"
    using m by simp
  ultimately have "search_filter ''RENT'' [milk, rent] = Inr [rent]"
    using search_filter_exact [of "''RENT''" "[milk, rent]" "[rent]"] by blast
  with d occ show ?thesis by simp
qed

text \<open>
  The filters compose with logical AND where the search does not raise: when every task
  has a description, the tasks displayed are exactly the tasks that match the search,
  have the chosen priority (or the choice is All) and have the chosen status (or the
  choice is All).
\<close>

theorem tasks_to_display_exact:
  assumes "\<forall>t \<in> set all_tasks. t_description t \<noteq> None"
  shows "tasks_to_display search_query filter_priority filter_status all_tasks =
     Inr (filter (\<lambda>t. matches_search search_query t \<and>
                      (filter_priority = ''All'' \<or> t_priority t = Some filter_priority) \<and>
                      (filter_status = ''All'' \<or> t_status t = filter_status)) all_tasks)"
proof -
  define found where "found = filter (matches_search search_query) all_tasks"
  have searched:
    "(if search_query \<noteq> [] then search_filter search_query all_tasks else Inr all_tasks)
       = Inr found"
    using search_filter_descriptions [OF assms, of search_query]
    by (simp add: found_def matches_search_empty)
  have "tasks_to_display search_query filter_priority filter_status all_tasks =
     Inr (filter (\<lambda>t. filter_status = ''All'' \<or> t_status t = filter_status)
            (filter (\<lambda>t. filter_priority = ''All'' \<or> t_priority t = Some filter_priority)
               found))"
    unfolding tasks_to_display_def searched by (simp add: Let_def)
  also have "\<dots> =
     Inr (filter (\<lambda>t. matches_search search_query t \<and>
                      (filter_priority = ''All'' \<or> t_priority t = Some filter_priority) \<and>
                      (filter_status = ''All'' \<or> t_status t = filter_status)) all_tasks)"
    unfolding found_def filter_filter by (auto intro: filter_cong)
  finally show ?thesis .
qed

theorem tasks_to_display_exact_witness:
  "t_description milk \<noteq> None \<and> t_description summary \<noteq> None \<and>
   tasks_to_display ''milk'' ''High'' ''All'' [milk, summary] = Inr [summary] \<and>
   tasks_to_display ''milk'' ''All'' ''Pending'' [milk, summary] = Inr [milk, summary]"
proof -
  have d: "t_description milk \<noteq> None" "t_description summary \<noteq> None"
    by (simp_all add: milk_def summary_def)
  then have all: "\<forall>t \<in> set [milk, summary]. t_description t \<noteq> None"
    by simp
  have f: "t_priority milk = Some ''Low''" "t_priority summary = Some ''High''"
    "t_status milk = ''Pending''" "t_status summary = ''Pending''"
    by (simp_all add: milk_def summary_def)
  have "tasks_to_display ''milk'' ''High'' ''All'' [milk, summary] = Inr [summary]"
    unfolding tasks_to_display_exact [OF all] by (simp add: matches_search_examples f)
  moreover have "tasks_to_display ''milk'' ''All'' ''Pending'' [milk, summary] = Inr [milk, summary]"
    unfolding tasks_to_display_exact [OF all] by (simp add: matches_search_examples f)
  ultimately show ?thesis using d by simp
qed

text \<open>
  The priority filter alone, on every list: with no search query and every status, the
  tasks displayed for the priority \<^verbatim>\<open>High\<close> are exactly the tasks whose priority is
  \<^verbatim>\<open>High\<close>.
\<close>

theorem priority_filter_exact:
  "tasks_to_display [] ''High'' ''All'' all_tasks =
     Inr (filter (\<lambda>t. t_priority t = Some ''High'') all_tasks)"
  by (simp add: tasks_to_display_def)

end
